theory Spec2Isabelle
  imports Main "HOL-Library.AList"
begin

section \<open>JavaScript values\<close>

text \<open>
  The payloads the bot receives from the 42 API are parsed JSON documents. They are
  modelled as an untyped value, with JavaScript's own rules for truthiness and for
  reading a property: reading a property of \<open>undefined\<close> or \<open>null\<close> throws a
  \<open>TypeError\<close>, reading a missing property yields \<open>undefined\<close>.
  Numbers are integers here, of a magnitude below \<open>10^21\<close> (those print in plain decimal);
  an object is the list of its entries, looked up by key.

  Calls that only log (\<open>debugLog\<close>, \<open>debugVerification\<close>, \<open>debugOAuth2Flow\<close>,
  \<open>console.log\<close>, \<open>console.error\<close>) are left out; the evaluation of their
  arguments is kept where it can throw.
\<close>

datatype jsval =
    JUndefined
  | JNull
  | JBool bool
  | JNum int
  | JStr string
  | JArr "jsval list"
  | JObj "(string \<times> jsval) list"

datatype exn = Error string | TypeError string

fun message :: "exn \<Rightarrow> string" where
  "message (Error m) = m"
| "message (TypeError m) = m"

fun truthy :: "jsval \<Rightarrow> bool" where
  "truthy JUndefined = False"
| "truthy JNull = False"
| "truthy (JBool b) = b"
| "truthy (JNum n) = (n \<noteq> 0)"
| "truthy (JStr s) = (s \<noteq> [])"
| "truthy (JArr xs) = True"
| "truthy (JObj kvs) = True"

definition cannot_read :: "string \<Rightarrow> string \<Rightarrow> exn" where
  "cannot_read what k =
     TypeError (''Cannot read properties of '' @ what @ '' (reading '' @ [CHR 0x27] @ k @ [CHR 0x27] @ '')'')"

text \<open>
  \<open>v.k\<close> and \<open>v['k']\<close>. Only the own entries of an object and the \<open>length\<close> of an
  array or a string are modelled (no key read by the bot is an index or is inherited).
\<close>

fun get_prop :: "jsval \<Rightarrow> string \<Rightarrow> exn + jsval" where
  "get_prop JUndefined k = Inl (cannot_read ''undefined'' k)"
| "get_prop JNull k = Inl (cannot_read ''null'' k)"
| "get_prop (JObj kvs) k = Inr (case map_of kvs k of Some v \<Rightarrow> v | None \<Rightarrow> JUndefined)"
| "get_prop (JArr xs) k = Inr (if k = ''length'' then JNum (int (length xs)) else JUndefined)"
| "get_prop (JStr s) k = Inr (if k = ''length'' then JNum (int (length s)) else JUndefined)"
| "get_prop (JBool b) k = Inr JUndefined"
| "get_prop (JNum n) k = Inr JUndefined"

text \<open>Sequencing of computations that may throw.\<close>

fun and_then :: "exn + 'a \<Rightarrow> ('a \<Rightarrow> exn + 'b) \<Rightarrow> exn + 'b" where
  "and_then (Inl e) f = Inl e"
| "and_then (Inr x) f = f x"

section \<open>Conversion to a string\<close>

text \<open>
  What a template literal does to the value it interpolates. A primitive has its usual
  text. An array is the texts of its elements joined by commas, an \<open>undefined\<close> or
  \<open>null\<close> element giving the empty text; the elements are converted from left to right
  and the first failure is thrown. An object without an entry \<open>toString\<close> of its own
  inherits the one that answers \<open>[object Object]\<close>. An object with such an entry cannot
  be converted: the entry is a JSON value, so it is not callable, and \<open>valueOf\<close>,
  inherited or an entry as well, yields no primitive; the conversion throws a
  \<open>TypeError\<close>.
\<close>

function digits :: "nat \<Rightarrow> string" where
  "digits n =
     (if n < 10 then [''0123456789'' ! n]
      else digits (n div 10) @ [''0123456789'' ! (n mod 10)])"
  by pat_completeness auto
termination
  by (relation "measure id") auto

declare digits.simps [simp del]

definition number_text :: "int \<Rightarrow> string" where
  "number_text n = (if n < 0 then ''-'' @ digits (nat (- n)) else digits (nat n))"

fun join_texts :: "(exn + string) list \<Rightarrow> exn + string" where
  "join_texts [] = Inr []"
| "join_texts [r] = r"
| "join_texts (r # rs) =
     and_then r (\<lambda>a. and_then (join_texts rs) (\<lambda>b. Inr (a @ '','' @ b)))"

fun to_string :: "jsval \<Rightarrow> exn + string" where
  "to_string JUndefined = Inr ''undefined''"
| "to_string JNull = Inr ''null''"
| "to_string (JBool b) = Inr (if b then ''true'' else ''false'')"
| "to_string (JNum n) = Inr (number_text n)"
| "to_string (JStr s) = Inr s"
| "to_string (JArr xs) =
     join_texts (map (\<lambda>x. if x = JUndefined \<or> x = JNull then Inr [] else to_string x) xs)"
| "to_string (JObj kvs) =
     (case map_of kvs ''toString'' of
        Some f \<Rightarrow> Inl (TypeError ''Cannot convert object to primitive value'')
      | None \<Rightarrow> Inr ''[object Object]'')"

section \<open>The eligibility predicate (fortytwo-api.js)\<close>

text \<open>
  \<open>console.warn\<close> is the one log call that is kept: the line it prints is recorded,
  and the conversion of \<open>userData.login\<close> in its template can throw.
\<close>

datatype console_line = Warn string

definition pool_warning :: "string \<Rightarrow> console_line" where
  "pool_warning shown =
     Warn (''User '' @ shown @ '' has no pool year/month - might be a staff member'')"

text \<open>\<open>!v || v.length === 0\<close>\<close>

definition missing_or_empty :: "jsval \<Rightarrow> exn + bool" where
  "missing_or_empty v =
     (if \<not> truthy v then Inr True
      else and_then (get_prop v ''length'') (\<lambda>n. Inr (n = JNum 0)))"

definition validateStudentStatus :: "jsval \<Rightarrow> exn + (bool \<times> console_line list)" where
  "validateStudentStatus userData =
     (if \<not> truthy userData then Inr (False, [])
      else and_then (get_prop userData ''login'') (\<lambda>login.
      if \<not> truthy login then Inr (False, [])
      else and_then (get_prop userData ''email'') (\<lambda>email.
      if \<not> truthy email then Inr (False, [])
      else and_then (get_prop userData ''staff?'') (\<lambda>staff.
      if truthy staff then Inr (False, [])
      else and_then (get_prop userData ''cursus_users'') (\<lambda>cursus_users.
      and_then (missing_or_empty cursus_users) (\<lambda>no_cursus.
      if no_cursus then Inr (False, [])
      else and_then (get_prop userData ''campus'') (\<lambda>campus.
      and_then (missing_or_empty campus) (\<lambda>no_campus.
      if no_campus then Inr (False, [])
      else and_then (get_prop userData ''active?'') (\<lambda>active.
      if active = JBool False then Inr (False, [])
      else and_then (get_prop userData ''pool_year'') (\<lambda>pool_year.
      if truthy pool_year then Inr (True, [])
      else and_then (get_prop userData ''pool_month'') (\<lambda>pool_month.
      if truthy pool_month then Inr (True, [])
      else and_then (to_string login) (\<lambda>shown.
      Inr (True, [pool_warning shown])))))))))))))"

text \<open>The value of a property, \<open>undefined\<close> where the read would throw (\<open>v?.k\<close>).\<close>

definition field :: "jsval \<Rightarrow> string \<Rightarrow> jsval" where
  "field v k = (case get_prop v k of Inl e \<Rightarrow> JUndefined | Inr x \<Rightarrow> x)"

text \<open>The boolean the caller sees, when the predicate returns.\<close>

definition verdict :: "jsval \<Rightarrow> exn + bool" where
  "verdict userData = and_then (validateStudentStatus userData) (\<lambda>r. Inr (fst r))"

section \<open>Pages sent by the HTTP handlers (index.js)\<close>

text \<open>
  A page is its title and the elements of its body in document order. Style sheets and
  pictographs are left out; a link is its target and its text.
\<close>

datatype node = H1 string | H2 string | P string | Div string | A string string

record html =
  title :: string
  body :: "node list"

definition callback_error_page :: "string \<Rightarrow> html" where
  "callback_error_page err =
     \<lparr>title = ''Verification Failed'',
      body = [H1 ''Verification Failed'',
              P (''Error: '' @ err),
              P ''Please try again or contact an administrator.'']\<rparr>"

definition missing_parameters_page :: html where
  "missing_parameters_page =
     \<lparr>title = ''Verification Failed'',
      body = [H1 ''Verification Failed'',
              P ''Missing authorization code or state parameter.'',
              P ''Please try again.'']\<rparr>"

definition invalid_state_page :: html where
  "invalid_state_page =
     \<lparr>title = ''Verification Failed'',
      body = [H1 ''Verification Failed'',
              P ''Invalid or expired verification request.'',
              P ''Please try joining the server again.'']\<rparr>"

definition verification_error_page :: "string \<Rightarrow> html" where
  "verification_error_page msg =
     \<lparr>title = ''Verification Failed'',
      body = [H1 ''Verification Failed'',
              P (''An error occurred during verification: '' @ msg),
              P ''Please try again or contact an administrator.'']\<rparr>"

definition rules_page :: "string \<Rightarrow> html" where
  "rules_page st =
     \<lparr>title = ''Queernel Rules - Accept to Continue'',
      body = [H1 ''Welcome to Queernel!'',
              Div ''You have been verified as a 42 student'',
              Div ''Status: Verified 42 Student'',
              H2 ''Rules Acceptance Required'',
              Div ''Je m'identifie comme queer / I identify as queer'',
              P ''Please read and accept the rules above to continue with the verification process.'',
              A (''/auth/rules/accept?state='' @ st) ''Accept & Continue'',
              A (''/auth/rules/decline?state='' @ st) ''Decline & Exit'']\<rparr>"

definition missing_state_page :: html where
  "missing_state_page =
     \<lparr>title = ''Error'',
      body = [H1 ''Error'',
              P ''Missing state parameter.'',
              P ''Please try joining the server again.'']\<rparr>"

definition invalid_rules_state_page :: html where
  "invalid_rules_state_page =
     \<lparr>title = ''Error'',
      body = [H1 ''Error'',
              P ''Invalid or expired verification request.'',
              P ''Please try joining the server again.'']\<rparr>"

definition success_page :: html where
  \<open>success_page =
     \<lparr>title = ''Verification Successful'',
      body = [H1 ''Verification Successful!'',
              H2 ''Welcome to Queernel!'',
              P ''You have successfully accepted the rules and been verified as a 42 student.'',
              P ''The "42" role has been added to your Discord account.'',
              P ''You can now close this window and return to Discord.'']\<rparr>\<close>

definition decline_page :: html where
  \<open>decline_page =
     \<lparr>title = ''Verification Declined'',
      body = [H1 ''Verification Declined'',
              H2 ''Rules Not Accepted'',
              P ''You have declined to accept the Queernel rules.'',
              P ''You will not receive the "42" role and cannot access all server features.'',
              P ''If you change your mind, you can try joining the server again.'']\<rparr>\<close>

text \<open>
  What the requester gets: a page, or nothing when the handler's promise is rejected
  outside its \<open>try\<close> block.
\<close>

datatype response = Sent html | Unhandled exn

section \<open>The registry of pending verifications\<close>

text \<open>
  A record of the \<open>pendingVerifications\<close> map. \<open>userData\<close> and \<open>step\<close> are absent
  until the callback stores them (\<open>JUndefined\<close>, \<open>None\<close>).
\<close>

record verification =
  discordUserId :: string
  discordUsername :: string
  timestamp :: int
  userData :: jsval
  step :: "string option"

text \<open>
  The map keeps its entries in insertion order, one per key. The server state is the map
  together with the trace of the effectful calls made so far, in program order: the
  mutations of the map and the calls to the Discord API.
\<close>

datatype embed = WelcomeEmbed string "(string \<times> string) list" | SuccessEmbed | PublicEmbed

datatype call =
    MapSet string
  | MapDelete string
  | RolesAdd string
  | MemberSend string embed
  | ChannelSend embed

record server =
  pending :: "(string \<times> verification) list"
  calls :: "call list"

definition map_set :: "string \<Rightarrow> verification \<Rightarrow> server \<Rightarrow> server" where
  "map_set k v s = s\<lparr>pending := AList.update k v (pending s), calls := calls s @ [MapSet k]\<rparr>"

definition map_delete :: "string \<Rightarrow> server \<Rightarrow> server" where
  "map_delete k s = s\<lparr>pending := AList.delete k (pending s), calls := calls s @ [MapDelete k]\<rparr>"

definition called :: "call \<Rightarrow> server \<Rightarrow> server" where
  "called c s = s\<lparr>calls := calls s @ [c]\<rparr>"

section \<open>The outside world\<close>

text \<open>
  What the Discord client answers during one request: whether the guild, the role and the
  bot's own member are in the caches, and how \<open>guild.members.fetch\<close>,
  \<open>member.roles.add\<close> and \<open>member.send\<close> settle for a user id.
\<close>

record discord =
  guild_cached :: bool
  members_fetch :: "string \<Rightarrow> exn + bool"
  role_cached :: bool
  bot_member_cached :: bool
  roles_add :: "string \<Rightarrow> exn option"
  member_send :: "string \<Rightarrow> exn option"

text \<open>
  What the 42 API answers: each request is rejected, with the description the wrapper
  puts after its own prefix, or carries \<open>response.data\<close>.
\<close>

record intra =
  post_oauth_token :: "string \<Rightarrow> string + jsval"
  get_v2_me :: "jsval \<Rightarrow> string + jsval"

definition exchangeCodeForToken :: "intra \<Rightarrow> string \<Rightarrow> exn + jsval" where
  "exchangeCodeForToken api c =
     (case post_oauth_token api c of
        Inl description \<Rightarrow> Inl (Error (''Failed to exchange code for token: '' @ description))
      | Inr data \<Rightarrow>
          (case get_prop data ''access_token'' of
             Inl e \<Rightarrow> Inl (Error (''Failed to exchange code for token: '' @ message e))
           | Inr t \<Rightarrow> Inr data))"

definition getUserInfo :: "intra \<Rightarrow> jsval \<Rightarrow> exn + jsval" where
  "getUserInfo api accessToken =
     (case get_v2_me api accessToken of
        Inl description \<Rightarrow> Inl (Error (''Failed to get user info: '' @ description))
      | Inr data \<Rightarrow>
          (case get_prop data ''login'' of
             Inl e \<Rightarrow> Inl (Error (''Failed to get user info: '' @ message e))
           | Inr l \<Rightarrow> Inr data))"

section \<open>The HTTP handlers (index.js)\<close>

text \<open>A query parameter is a string or is missing; both the missing and the empty one are falsy.\<close>

record query =
  code :: "string option"
  state :: "string option"
  error :: "string option"

definition str :: "string option \<Rightarrow> string" where
  "str p = (case p of None \<Rightarrow> [] | Some x \<Rightarrow> x)"

subsection \<open>GET /auth/callback\<close>

text \<open>The \<open>try\<close> block up to the point where the record is stored again.\<close>

definition callback_try :: "intra \<Rightarrow> discord \<Rightarrow> verification \<Rightarrow> string \<Rightarrow> exn + jsval" where
  "callback_try api dc verification c =
     and_then (exchangeCodeForToken api c) (\<lambda>tokenResponse.
     and_then (get_prop tokenResponse ''access_token'') (\<lambda>access_token.
     and_then (getUserInfo api access_token) (\<lambda>userData.
     and_then (get_prop userData ''login'') (\<lambda>login.
     and_then (validateStudentStatus userData) (\<lambda>valid.
     if \<not> fst valid then Inl (Error ''User is not a valid 42 student or is staff'')
     else if \<not> guild_cached dc then Inl (Error ''Guild not found'')
     else and_then (members_fetch dc (discordUserId verification)) (\<lambda>member.
     if \<not> member then Inl (Error ''Member not found in guild'')
     else Inr userData))))))"

definition callback :: "server \<Rightarrow> query \<Rightarrow> intra \<Rightarrow> discord \<Rightarrow> server \<times> response" where
  "callback s q api dc =
     (if str (error q) \<noteq> [] then (s, Sent (callback_error_page (str (error q))))
      else if str (code q) = [] \<or> str (state q) = [] then (s, Sent missing_parameters_page)
      else
        (case map_of (pending s) (str (state q)) of
           None \<Rightarrow> (s, Sent invalid_state_page)
         | Some verification \<Rightarrow>
             (case callback_try api dc verification (str (code q)) of
                Inr data \<Rightarrow>
                  (map_set (str (state q))
                     (verification\<lparr>userData := data, step := Some ''rules_pending''\<rparr>) s,
                   Sent (rules_page (str (state q))))
              | Inl e \<Rightarrow>
                  (map_delete (str (state q)) s,
                   Sent (verification_error_page (message e))))))"

text \<open>
  The handler reads the record when the request arrives and writes the map when the
  calls it awaits (the 42 API, \<open>guild.members.fetch\<close>) have settled; other requests and
  the timer's sweep run in between. \<open>callback_resume\<close> is the handler from its first
  await on: \<open>verification\<close> is the record it read, \<open>s\<close> the state when it goes on.
\<close>

definition callback_resume ::
  "server \<Rightarrow> string \<Rightarrow> verification \<Rightarrow> string \<Rightarrow> intra \<Rightarrow> discord \<Rightarrow> server \<times> response" where
  "callback_resume s st verification c api dc =
     (case callback_try api dc verification c of
        Inr data \<Rightarrow>
          (map_set st (verification\<lparr>userData := data, step := Some ''rules_pending''\<rparr>) s,
           Sent (rules_page st))
      | Inl e \<Rightarrow>
          (map_delete st s, Sent (verification_error_page (message e))))"

subsection \<open>GET /auth/rules/accept\<close>

text \<open>The \<open>try\<close> block up to the deletion of the record: the grant and the success message.\<close>

definition accept_try :: "discord \<Rightarrow> verification \<Rightarrow> server \<Rightarrow> server \<times> (exn + unit)" where
  "accept_try dc verification s =
     (if \<not> guild_cached dc then (s, Inl (Error ''Guild not found''))
      else
        (case members_fetch dc (discordUserId verification) of
           Inl e \<Rightarrow> (s, Inl e)
         | Inr member \<Rightarrow>
             if \<not> member then (s, Inl (Error ''Member not found in guild''))
             else if \<not> role_cached dc then (s, Inl (Error ''42 role not found''))
             else if \<not> bot_member_cached dc then (s, Inl (cannot_read ''undefined'' ''roles''))
             else
               (case roles_add dc (discordUserId verification) of
                  Some roleError \<Rightarrow>
                    (called (RolesAdd (discordUserId verification)) s,
                     Inl (Error (''Failed to assign role: '' @ message roleError)))
                | None \<Rightarrow>
                    (called (MemberSend (discordUserId verification) SuccessEmbed)
                       (called (RolesAdd (discordUserId verification)) s),
                     Inr ()))))"

definition accept :: "server \<Rightarrow> string option \<Rightarrow> discord \<Rightarrow> server \<times> response" where
  "accept s st dc =
     (if str st = [] then (s, Sent missing_state_page)
      else
        (case map_of (pending s) (str st) of
           None \<Rightarrow> (s, Sent invalid_rules_state_page)
         | Some verification \<Rightarrow>
             if step verification \<noteq> Some ''rules_pending'' then (s, Sent invalid_rules_state_page)
             else
               (case get_prop (userData verification) ''login'' of
                  Inl e \<Rightarrow> (s, Unhandled e)
                | Inr login \<Rightarrow>
                    (case accept_try dc verification s of
                       (s', Inr u) \<Rightarrow> (map_delete (str st) s', Sent success_page)
                     | (s', Inl e) \<Rightarrow>
                         (map_delete (str st) s', Sent (verification_error_page (message e)))))))"

subsection \<open>GET /auth/rules/decline\<close>

definition decline :: "server \<Rightarrow> string option \<Rightarrow> server \<times> response" where
  "decline s st =
     (if str st = [] then (s, Sent missing_state_page)
      else
        (case map_of (pending s) (str st) of
           None \<Rightarrow> (s, Sent invalid_rules_state_page)
         | Some verification \<Rightarrow>
             if step verification \<noteq> Some ''rules_pending'' then (s, Sent invalid_rules_state_page)
             else
               (case get_prop (userData verification) ''login'' of
                  Inl e \<Rightarrow> (s, Unhandled e)
                | Inr login \<Rightarrow> (map_delete (str st) s, Sent decline_page))))"

section \<open>The sweep of expired verifications (utils.js)\<close>

text \<open>
  The loop over \<open>pendingVerifications.entries()\<close>: the entries are visited in the order
  the map holds them, and the only deletion during the walk is that of the entry being
  visited. The loop's state is the map and \<open>cleanedCount\<close>.
\<close>

fun cleanup_loop ::
  "int \<Rightarrow> int \<Rightarrow> (string \<times> verification) list \<Rightarrow> server \<times> nat \<Rightarrow> server \<times> nat" where
  "cleanup_loop now maxAge [] acc = acc"
| "cleanup_loop now maxAge ((st, verification) # entries) (s, cleanedCount) =
     cleanup_loop now maxAge entries
       (if now - timestamp verification > maxAge
        then (map_delete st s, cleanedCount + 1)
        else (s, cleanedCount))"

text \<open>\<open>now\<close> is the value \<open>Date.now()\<close> returns; a missing \<open>maxAge\<close> takes the default.\<close>

definition or_default :: "int option \<Rightarrow> int" where
  "or_default maxAge = (case maxAge of None \<Rightarrow> 10 * 60 * 1000 | Some m \<Rightarrow> m)"

definition cleanupExpiredVerifications :: "server \<Rightarrow> int option \<Rightarrow> int \<Rightarrow> server \<times> nat" where
  "cleanupExpiredVerifications s maxAge now =
     cleanup_loop now (or_default maxAge) (pending s) (s, 0)"

section \<open>A member joins (index.js)\<close>

text \<open>\<open>crypto.randomBytes(32).toString('hex')\<close>, the bytes read from a source of entropy.\<close>

definition hex_byte :: "nat \<Rightarrow> string" where
  "hex_byte b = [''0123456789abcdef'' ! (b div 16 mod 16), ''0123456789abcdef'' ! (b mod 16)]"

definition generateState :: "(nat \<Rightarrow> nat) \<Rightarrow> string" where
  "generateState random = concat (map (\<lambda>i. hex_byte (random i)) [0..<32])"

definition createAuthUrl :: "string \<Rightarrow> string \<Rightarrow> string \<Rightarrow> string \<times> (string \<times> string) list" where
  "createAuthUrl clientId redirectUri st =
     (''https://api.intra.42.fr/oauth/authorize'',
      [(''client_id'', clientId), (''redirect_uri'', redirectUri),
       (''response_type'', ''code''), (''scope'', ''public''), (''state'', st)])"

record joining =
  in_queernel :: bool
  user_id :: string
  user_tag :: string
  has_role :: bool
  random :: "nat \<Rightarrow> nat"
  joined_at :: int
  client_id :: string
  redirect_uri :: string
  system_channel :: bool
  channel_send :: "exn option"

definition guildMemberAdd :: "server \<Rightarrow> joining \<Rightarrow> discord \<Rightarrow> server \<times> exn option" where
  "guildMemberAdd s m dc =
     (if \<not> in_queernel m then (s, None)
      else if has_role m then (s, None)
      else
        (let st = generateState (random m);
             s1 = map_set st
                    \<lparr>discordUserId = user_id m, discordUsername = user_tag m,
                     timestamp = joined_at m, userData = JUndefined, step = None\<rparr> s;
             authUrl = createAuthUrl (client_id m) (redirect_uri m) st;
             s2 = called (MemberSend (user_id m) (WelcomeEmbed (fst authUrl) (snd authUrl))) s1
         in case member_send dc (user_id m) of
              None \<Rightarrow> (s2, None)
            | Some e \<Rightarrow>
                if system_channel m then (called (ChannelSend PublicEmbed) s2, channel_send m)
                else (s2, None)))"

section \<open>Runs of the server\<close>

text \<open>
  The triggers the process reacts to, each with what the outside world answers while it
  is handled; the timer's sweep carries the time it reads.
\<close>

datatype event =
    Join joining discord
  | Callback query intra discord
  | Accept "string option" discord
  | Decline "string option"
  | Sweep int

fun handle :: "server \<Rightarrow> event \<Rightarrow> server" where
  "handle s (Join m dc) = fst (guildMemberAdd s m dc)"
| "handle s (Callback q api dc) = fst (callback s q api dc)"
| "handle s (Accept st dc) = fst (accept s st dc)"
| "handle s (Decline st) = fst (decline s st)"
| "handle s (Sweep now) = fst (cleanupExpiredVerifications s None now)"

fun run :: "server \<Rightarrow> event list \<Rightarrow> server" where
  "run s [] = s"
| "run s (e # es) = run (handle s e) es"

section \<open>Notions used to state the properties\<close>

text \<open>
  The conditions \<open>validateStudentStatus\<close> tests, read off its five guards: a value has
  no entries when it is falsy or its \<open>length\<close> is \<open>0\<close>.
\<close>

definition no_entries :: "jsval \<Rightarrow> bool" where
  "no_entries v = (\<not> truthy v \<or> field v ''length'' = JNum 0)"

definition eligible :: "jsval \<Rightarrow> bool" where
  "eligible u =
     (truthy u \<and> truthy (field u ''login'') \<and> truthy (field u ''email'')
      \<and> \<not> truthy (field u ''staff?'')
      \<and> \<not> no_entries (field u ''cursus_users'')
      \<and> \<not> no_entries (field u ''campus'')
      \<and> field u ''active?'' \<noteq> JBool False)"


text \<open>
  A record waits for consent when the callback has stored the step and the claims. A
  record that is in the map without that step waits for the identity callback.
\<close>

definition awaiting_consent :: "verification \<Rightarrow> bool" where
  "awaiting_consent v =
     (step v = Some ''rules_pending'' \<and> userData v \<noteq> JUndefined \<and> userData v \<noteq> JNull)"





text \<open>An event stores a new record under a token: a join that starts a verification.\<close>

fun creates :: "event \<Rightarrow> string \<Rightarrow> bool" where
  "creates (Join m dc) tok =
     (in_queernel m \<and> \<not> has_role m \<and> generateState (random m) = tok)"
| "creates e tok = False"

text \<open>
  The shape of the states the server reaches: one entry per key, no empty key, and claims
  on every record in the consent step.
\<close>

definition well_formed :: "server \<Rightarrow> bool" where
  "well_formed s =
     (distinct (map fst (pending s))
      \<and> (\<forall>p \<in> set (pending s).
            fst p \<noteq> [] \<and> (step (snd p) = Some ''rules_pending'' \<longrightarrow> awaiting_consent (snd p))))"

text \<open>The grant is the call \<open>member.roles.add\<close>.\<close>

fun is_grant :: "call \<Rightarrow> bool" where
  "is_grant (RolesAdd u) = True"
| "is_grant c = False"

text \<open>The accept handler gets as far as the grant: guild, member, role and bot member are found.\<close>

definition ready_to_grant :: "discord \<Rightarrow> string \<Rightarrow> bool" where
  "ready_to_grant dc u =
     (guild_cached dc \<and> members_fetch dc u = Inr True \<and> role_cached dc \<and> bot_member_cached dc)"

subsection \<open>Fixtures\<close>

definition fixture_record :: verification where
  "fixture_record =
     \<lparr>discordUserId = ''1001'', discordUsername = ''jdoe#0001'', timestamp = 1000,
      userData = JUndefined, step = None\<rparr>"

definition fixture_student :: jsval where
  "fixture_student =
     JObj [(''login'', JStr ''jdoe''), (''email'', JStr ''jdoe@student.42.fr''),
           (''staff?'', JBool False), (''cursus_users'', JArr [JObj []]),
           (''campus'', JArr [JObj []]), (''active?'', JBool True)]"

definition fixture_student_pool :: jsval where
  "fixture_student_pool =
     JObj [(''login'', JStr ''jdoe''), (''email'', JStr ''jdoe@student.42.fr''),
           (''staff?'', JBool False), (''cursus_users'', JArr [JObj []]),
           (''campus'', JArr [JObj []]), (''active?'', JBool True),
           (''pool_month'', JStr ''july'')]"

definition fixture_pisciner :: jsval where
  "fixture_pisciner =
     JObj [(''login'', JStr ''asmith''), (''email'', JStr ''asmith@student.42.fr''),
           (''cursus_users'', JArr [JObj []]), (''campus'', JArr [JObj []]),
           (''pool_year'', JStr ''2023''), (''pool_month'', JStr ''july'')]"

definition fixture_staff :: jsval where
  "fixture_staff =
     JObj [(''login'', JStr ''boss''), (''email'', JStr ''boss@42.fr''),
           (''staff?'', JBool True), (''cursus_users'', JArr [JObj []]),
           (''campus'', JArr [JObj []])]"

definition fixture_odd_login :: jsval where
  "fixture_odd_login =
     JObj [(''login'', JObj [(''toString'', JNum 1)]), (''email'', JStr ''odd@student.42.fr''),
           (''cursus_users'', JArr [JObj []]), (''campus'', JArr [JObj []])]"

definition fixture_odd_login_pool :: jsval where
  "fixture_odd_login_pool =
     JObj [(''login'', JObj [(''toString'', JNum 1)]), (''email'', JStr ''odd@student.42.fr''),
           (''cursus_users'', JArr [JObj []]), (''campus'', JArr [JObj []]),
           (''pool_year'', JStr ''2023'')]"

definition fixture_consenting :: verification where
  "fixture_consenting =
     fixture_record\<lparr>userData := fixture_student, step := Some ''rules_pending''\<rparr>"

definition discord_up :: discord where
  "discord_up =
     \<lparr>guild_cached = True, members_fetch = (\<lambda>u. Inr True), role_cached = True,
      bot_member_cached = True, roles_add = (\<lambda>u. None), member_send = (\<lambda>u. None)\<rparr>"

definition discord_denying :: discord where
  "discord_denying = discord_up\<lparr>roles_add := (\<lambda>u. Some (Error ''Missing Permissions''))\<rparr>"

definition intra_answering :: "jsval \<Rightarrow> intra" where
  "intra_answering u =
     \<lparr>post_oauth_token = (\<lambda>c. Inr (JObj [(''access_token'', JStr ''t0'')])),
      get_v2_me = (\<lambda>t. Inr u)\<rparr>"

definition intra_down :: intra where
  "intra_down =
     \<lparr>post_oauth_token = (\<lambda>c. Inl ''Request failed with status code 401''),
      get_v2_me = (\<lambda>t. Inl ''Request failed with status code 401'')\<rparr>"

definition server_with :: "verification \<Rightarrow> server" where
  "server_with v = \<lparr>pending = [(''c0ffee'', v)], calls = []\<rparr>"

definition callback_query :: query where
  "callback_query = \<lparr>code = Some ''abc'', state = Some ''c0ffee'', error = None\<rparr>"

section \<open>The eligibility predicate: what it computes\<close>

lemma get_prop_truthy: "truthy u \<Longrightarrow> get_prop u k = Inr (field u k)"
  by (cases u) (simp_all add: field_def)

lemma get_prop_attached:
  "v \<noteq> JUndefined \<Longrightarrow> v \<noteq> JNull \<Longrightarrow> get_prop v k = Inr (field v k)"
  by (cases v) (simp_all add: field_def)

lemma missing_or_empty_eq: "missing_or_empty v = Inr (no_entries v)"
  by (cases "truthy v") (simp_all add: missing_or_empty_def no_entries_def get_prop_truthy)

lemma validate_falsy: "\<not> truthy u \<Longrightarrow> validateStudentStatus u = Inr (False, [])"
  by (simp add: validateStudentStatus_def)

lemma validate_truthy:
  "truthy u \<Longrightarrow> validateStudentStatus u =
     (if \<not> truthy (field u ''login'') then Inr (False, [])
      else if \<not> truthy (field u ''email'') then Inr (False, [])
      else if truthy (field u ''staff?'') then Inr (False, [])
      else if no_entries (field u ''cursus_users'') then Inr (False, [])
      else if no_entries (field u ''campus'') then Inr (False, [])
      else if field u ''active?'' = JBool False then Inr (False, [])
      else if truthy (field u ''pool_year'') then Inr (True, [])
      else if truthy (field u ''pool_month'') then Inr (True, [])
      else and_then (to_string (field u ''login'')) (\<lambda>t. Inr (True, [pool_warning t])))"
  by (simp add: validateStudentStatus_def get_prop_truthy missing_or_empty_eq)

lemma validate_eq:
  "validateStudentStatus u =
     (if \<not> eligible u then Inr (False, [])
      else if truthy (field u ''pool_year'') \<or> truthy (field u ''pool_month'') then Inr (True, [])
      else and_then (to_string (field u ''login'')) (\<lambda>t. Inr (True, [pool_warning t])))"
  by (cases "truthy u") (auto simp add: validate_falsy validate_truthy eligible_def)

lemma validate_not_eligible: "\<not> eligible u \<Longrightarrow> validateStudentStatus u = Inr (False, [])"
  by (simp add: validate_eq)

lemma validate_throws_iff:
  "validateStudentStatus u = Inl e \<longleftrightarrow>
     eligible u \<and> \<not> truthy (field u ''pool_year'') \<and> \<not> truthy (field u ''pool_month'')
     \<and> to_string (field u ''login'') = Inl e"
  by (cases "to_string (field u ''login'')") (auto simp: validate_eq)

lemma verdict_not_eligible: "\<not> eligible u \<Longrightarrow> verdict u = Inr False"
  by (simp add: verdict_def validate_eq)

lemma verdict_returned: "verdict u = Inr b \<Longrightarrow> b = eligible u"
  by (cases "to_string (field u ''login'')") (auto simp: verdict_def validate_eq split: if_splits)

lemma verdict_eligible:
  "eligible u \<Longrightarrow> to_string (field u ''login'') = Inr t \<Longrightarrow> verdict u = Inr True"
  by (simp add: verdict_def validate_eq)

lemma verdict_eligible_pool:
  "eligible u \<Longrightarrow> truthy (field u ''pool_year'') \<or> truthy (field u ''pool_month'')
   \<Longrightarrow> verdict u = Inr True"
  by (auto simp add: verdict_def validate_eq)

lemma truthy_field: "truthy (field u k) \<Longrightarrow> k \<noteq> ''length'' \<Longrightarrow> truthy u"
  by (cases u) (simp_all add: field_def)

lemma eligible_fields:
  "eligible u \<longleftrightarrow>
     truthy (field u ''login'') \<and> truthy (field u ''email'')
      \<and> \<not> truthy (field u ''staff?'')
      \<and> \<not> no_entries (field u ''cursus_users'')
      \<and> \<not> no_entries (field u ''campus'')
      \<and> field u ''active?'' \<noteq> JBool False"
  using truthy_field [of u "''login''"] by (auto simp: eligible_def)

lemma no_entries_absent: "v \<in> {JUndefined, JNull, JArr []} \<Longrightarrow> no_entries v"
  by (auto simp: no_entries_def field_def)

lemma no_entries_Cons: "\<not> no_entries (JArr (c # cs))"
  by (simp add: no_entries_def field_def)

lemma five_conditions_eligible:
  "truthy (field u ''login'') \<and> truthy (field u ''email'')
      \<and> \<not> truthy (field u ''staff?'')
      \<and> (\<exists>c cs. field u ''cursus_users'' = JArr (c # cs))
      \<and> (\<exists>c cs. field u ''campus'' = JArr (c # cs))
      \<and> field u ''active?'' \<noteq> JBool False
   \<Longrightarrow> eligible u"
  unfolding eligible_fields using no_entries_Cons by auto

lemma listed_case_not_eligible:
  "u = JUndefined \<or> u = JNull
      \<or> \<not> truthy (field u ''login'') \<or> \<not> truthy (field u ''email'')
      \<or> truthy (field u ''staff?'')
      \<or> field u ''cursus_users'' \<in> {JUndefined, JNull, JArr []}
      \<or> field u ''campus'' \<in> {JUndefined, JNull, JArr []}
      \<or> field u ''active?'' = JBool False
   \<Longrightarrow> \<not> eligible u"
  unfolding eligible_def using no_entries_absent by auto

lemma to_string_primitive:
  "(\<forall>kvs. v \<noteq> JObj kvs) \<and> (\<forall>xs. v \<noteq> JArr xs) \<Longrightarrow> \<exists>t. to_string v = Inr t"
  by (cases v) auto

lemma eligible_student: "eligible fixture_student"
  by (simp add: eligible_fields fixture_student_def field_def no_entries_def)

lemma eligible_pisciner: "eligible fixture_pisciner"
  by (simp add: eligible_fields fixture_pisciner_def field_def no_entries_def)

lemma eligible_odd_login: "eligible fixture_odd_login" "eligible fixture_odd_login_pool"
  by (simp_all add: eligible_fields fixture_odd_login_def fixture_odd_login_pool_def field_def
      no_entries_def)

lemma not_eligible_staff: "\<not> eligible fixture_staff"
  by (simp add: eligible_fields fixture_staff_def field_def)

lemma fixture_logins:
  "field fixture_student ''login'' = JStr ''jdoe''"
  "field fixture_pisciner ''login'' = JStr ''asmith''"
  "field fixture_staff ''login'' = JStr ''boss''"
  "field fixture_odd_login ''login'' = JObj [(''toString'', JNum 1)]"
  "field fixture_odd_login_pool ''login'' = JObj [(''toString'', JNum 1)]"
  by (simp_all add: fixture_student_def fixture_pisciner_def fixture_staff_def
      fixture_odd_login_def fixture_odd_login_pool_def field_def)

lemma fixture_pools:
  "field fixture_student ''pool_year'' = JUndefined"
  "field fixture_student ''pool_month'' = JUndefined"
  "field fixture_pisciner ''pool_year'' = JStr ''2023''"
  "field fixture_odd_login ''pool_year'' = JUndefined"
  "field fixture_odd_login ''pool_month'' = JUndefined"
  "field fixture_odd_login_pool ''pool_year'' = JStr ''2023''"
  by (simp_all add: fixture_student_def fixture_pisciner_def
      fixture_odd_login_def fixture_odd_login_pool_def field_def)

lemma validate_fixtures:
  "validateStudentStatus fixture_student = Inr (True, [pool_warning ''jdoe''])"
  "validateStudentStatus fixture_pisciner = Inr (True, [])"
  "validateStudentStatus fixture_staff = Inr (False, [])"
  "validateStudentStatus fixture_odd_login
     = Inl (TypeError ''Cannot convert object to primitive value'')"
  "validateStudentStatus fixture_odd_login_pool = Inr (True, [])"
  by (simp_all add: validate_eq eligible_student eligible_pisciner eligible_odd_login
      not_eligible_staff fixture_logins fixture_pools)

lemma student_pool:
  "validateStudentStatus fixture_student_pool = Inr (True, [])"
  "verdict fixture_student_pool = Inr True"
  by (simp_all add: verdict_def validate_eq eligible_fields fixture_student_pool_def field_def
      no_entries_def)

lemma verdict_fixtures:
  "verdict fixture_student = Inr True" "verdict fixture_pisciner = Inr True"
  "verdict fixture_staff = Inr False"
  by (simp_all add: verdict_def validate_fixtures)


text \<open>
  C4, as the code has it. The eligibility predicate returns false, without throwing,
  when the payload is absent, when the login or the email is missing, when the staff flag
  is set, when \<open>cursus_users\<close> or \<open>campus\<close> is missing or an empty array, and when
  the active flag is \<open>false\<close>. For a payload with a login, an email, no staff flag, a
  non-empty \<open>cursus_users\<close> array, a non-empty \<open>campus\<close> array and an active flag
  that is not \<open>false\<close>, it returns true when \<open>pool_year\<close> or \<open>pool_month\<close> is there;
  when both are absent it converts the login to a string for the console warning, and
  returns true when that conversion succeeds, as it does for every login that is not an
  object or an array, and throws the conversion's \<open>TypeError\<close> when it fails. The
  predicate throws in no other case.
\<close>

theorem validateStudentStatus_verdicts:
  "(u = JUndefined \<or> u = JNull
      \<or> \<not> truthy (field u ''login'') \<or> \<not> truthy (field u ''email'')
      \<or> truthy (field u ''staff?'')
      \<or> field u ''cursus_users'' \<in> {JUndefined, JNull, JArr []}
      \<or> field u ''campus'' \<in> {JUndefined, JNull, JArr []}
      \<or> field u ''active?'' = JBool False
    \<longrightarrow> validateStudentStatus u = Inr (False, [])) \<and>
   (truthy (field u ''login'') \<and> truthy (field u ''email'')
      \<and> \<not> truthy (field u ''staff?'')
      \<and> (\<exists>c cs. field u ''cursus_users'' = JArr (c # cs))
      \<and> (\<exists>c cs. field u ''campus'' = JArr (c # cs))
      \<and> field u ''active?'' \<noteq> JBool False
    \<longrightarrow> validateStudentStatus u =
          (if truthy (field u ''pool_year'') \<or> truthy (field u ''pool_month'') then Inr (True, [])
           else (case to_string (field u ''login'') of
                   Inr t \<Rightarrow> Inr (True, [pool_warning t])
                 | Inl e \<Rightarrow> Inl e))) \<and>
   ((\<forall>kvs. field u ''login'' \<noteq> JObj kvs) \<and> (\<forall>xs. field u ''login'' \<noteq> JArr xs)
    \<longrightarrow> (\<exists>b w. validateStudentStatus u = Inr (b, w))) \<and>
   (validateStudentStatus u = Inl e
    \<longleftrightarrow> eligible u \<and> \<not> truthy (field u ''pool_year'') \<and> \<not> truthy (field u ''pool_month'')
        \<and> to_string (field u ''login'') = Inl e)"
proof (intro conjI impI)
  assume "u = JUndefined \<or> u = JNull
      \<or> \<not> truthy (field u ''login'') \<or> \<not> truthy (field u ''email'')
      \<or> truthy (field u ''staff?'')
      \<or> field u ''cursus_users'' \<in> {JUndefined, JNull, JArr []}
      \<or> field u ''campus'' \<in> {JUndefined, JNull, JArr []}
      \<or> field u ''active?'' = JBool False"
  then have "\<not> eligible u" by (rule listed_case_not_eligible)
  then show "validateStudentStatus u = Inr (False, [])" by (rule validate_not_eligible)
next
  assume "truthy (field u ''login'') \<and> truthy (field u ''email'')
      \<and> \<not> truthy (field u ''staff?'')
      \<and> (\<exists>c cs. field u ''cursus_users'' = JArr (c # cs))
      \<and> (\<exists>c cs. field u ''campus'' = JArr (c # cs))
      \<and> field u ''active?'' \<noteq> JBool False"
  then have "eligible u" by (rule five_conditions_eligible)
  then show "validateStudentStatus u =
          (if truthy (field u ''pool_year'') \<or> truthy (field u ''pool_month'') then Inr (True, [])
           else (case to_string (field u ''login'') of
                   Inr t \<Rightarrow> Inr (True, [pool_warning t])
                 | Inl e \<Rightarrow> Inl e))"
    by (cases "to_string (field u ''login'')") (simp_all add: validate_eq)
next
  assume "(\<forall>kvs. field u ''login'' \<noteq> JObj kvs) \<and> (\<forall>xs. field u ''login'' \<noteq> JArr xs)"
  then obtain t where "to_string (field u ''login'') = Inr t"
    using to_string_primitive by blast
  then show "\<exists>b w. validateStudentStatus u = Inr (b, w)"
    by (auto simp add: validate_eq)
next
  show "validateStudentStatus u = Inl e
    \<longleftrightarrow> eligible u \<and> \<not> truthy (field u ''pool_year'') \<and> \<not> truthy (field u ''pool_month'')
        \<and> to_string (field u ''login'') = Inl e"
    by (rule validate_throws_iff)
qed

theorem validateStudentStatus_verdicts_witness:
  "truthy (field fixture_staff ''staff?'')
   \<and> validateStudentStatus fixture_staff = Inr (False, [])
   \<and> validateStudentStatus JNull = Inr (False, [])
   \<and> field fixture_student ''cursus_users'' = JArr [JObj []]
   \<and> field fixture_student ''login'' = JStr ''jdoe''
   \<and> validateStudentStatus fixture_student = Inr (True, [pool_warning ''jdoe''])
   \<and> validateStudentStatus fixture_pisciner = Inr (True, [])"
  using validateStudentStatus_verdicts [of fixture_staff]
    validateStudentStatus_verdicts [of JNull]
    validateStudentStatus_verdicts [of fixture_student]
    validateStudentStatus_verdicts [of fixture_pisciner]
  by (simp add: validate_fixtures fixture_logins validate_falsy)
     (simp add: fixture_staff_def fixture_student_def field_def)

text \<open>
  The claim as stated fails: a payload that meets the five conditions, has no pool fields
  and has the object \<open>{"toString": 1}\<close> as its login makes the predicate throw.
\<close>

theorem validateStudentStatus_throws:
  "truthy (field fixture_odd_login ''login'') \<and> truthy (field fixture_odd_login ''email'')
   \<and> \<not> truthy (field fixture_odd_login ''staff?'')
   \<and> field fixture_odd_login ''cursus_users'' = JArr [JObj []]
   \<and> field fixture_odd_login ''campus'' = JArr [JObj []]
   \<and> field fixture_odd_login ''active?'' \<noteq> JBool False
   \<and> validateStudentStatus fixture_odd_login
       = Inl (TypeError ''Cannot convert object to primitive value'')"
  by (simp add: validate_fixtures) (simp add: fixture_odd_login_def field_def)

text \<open>
  C10, as the code has it. Whenever the predicate returns, its verdict does not depend on
  \<open>pool_year\<close> and \<open>pool_month\<close>: two payloads that agree on every other property
  and for which it returns get the same verdict. For a payload that meets the five
  conditions: with \<open>pool_year\<close> or \<open>pool_month\<close> there, the predicate returns true and
  prints nothing; with both absent, it returns true and prints the one console warning
  when the login converts to a string, as every string does, and throws the conversion's
  \<open>TypeError\<close> when it does not. So the pool fields decide whether such a payload can
  make the predicate throw.
\<close>

theorem pool_fields_and_verdict:
  "((\<forall>k. k \<noteq> ''pool_year'' \<and> k \<noteq> ''pool_month'' \<longrightarrow> field u k = field u' k)
      \<and> verdict u = Inr b \<and> verdict u' = Inr b' \<longrightarrow> b = b') \<and>
   (truthy (field u ''login'') \<and> truthy (field u ''email'')
      \<and> \<not> truthy (field u ''staff?'')
      \<and> (\<exists>c cs. field u ''cursus_users'' = JArr (c # cs))
      \<and> (\<exists>c cs. field u ''campus'' = JArr (c # cs))
      \<and> field u ''active?'' \<noteq> JBool False
    \<longrightarrow> (truthy (field u ''pool_year'') \<or> truthy (field u ''pool_month'')
           \<longrightarrow> validateStudentStatus u = Inr (True, []))
      \<and> (\<not> truthy (field u ''pool_year'') \<and> \<not> truthy (field u ''pool_month'')
           \<longrightarrow> (\<forall>t. to_string (field u ''login'') = Inr t
                  \<longrightarrow> validateStudentStatus u = Inr (True, [pool_warning t]))
             \<and> (\<forall>e. to_string (field u ''login'') = Inl e
                  \<longrightarrow> validateStudentStatus u = Inl e))) \<and>
   to_string (JStr s) = Inr s"
proof (intro conjI impI allI)
  assume a: "(\<forall>k. k \<noteq> ''pool_year'' \<and> k \<noteq> ''pool_month'' \<longrightarrow> field u k = field u' k)
      \<and> verdict u = Inr b \<and> verdict u' = Inr b'"
  then have "field u ''login'' = field u' ''login''" "field u ''email'' = field u' ''email''"
    "field u ''staff?'' = field u' ''staff?''" "field u ''cursus_users'' = field u' ''cursus_users''"
    "field u ''campus'' = field u' ''campus''" "field u ''active?'' = field u' ''active?''"
    by simp_all
  then have "eligible u = eligible u'"
    by (simp add: eligible_fields)
  with a show "b = b'"
    using verdict_returned [of u b] verdict_returned [of u' b'] by simp
next
  assume five: "truthy (field u ''login'') \<and> truthy (field u ''email'')
      \<and> \<not> truthy (field u ''staff?'')
      \<and> (\<exists>c cs. field u ''cursus_users'' = JArr (c # cs))
      \<and> (\<exists>c cs. field u ''campus'' = JArr (c # cs))
      \<and> field u ''active?'' \<noteq> JBool False"
  then have el: "eligible u" by (rule five_conditions_eligible)
  {
    assume "truthy (field u ''pool_year'') \<or> truthy (field u ''pool_month'')"
    with el show "validateStudentStatus u = Inr (True, [])"
      by (auto simp add: validate_eq)
  }
  {
    fix t
    assume "\<not> truthy (field u ''pool_year'') \<and> \<not> truthy (field u ''pool_month'')"
      and "to_string (field u ''login'') = Inr t"
    with el show "validateStudentStatus u = Inr (True, [pool_warning t])"
      by (simp add: validate_eq)
  }
  {
    fix e
    assume "\<not> truthy (field u ''pool_year'') \<and> \<not> truthy (field u ''pool_month'')"
      and "to_string (field u ''login'') = Inl e"
    with el show "validateStudentStatus u = Inl e"
      by (simp add: validate_eq)
  }
next
  show "to_string (JStr s) = Inr s" by simp
qed

theorem pool_fields_and_verdict_witness:
  "verdict fixture_student = Inr True \<and> verdict fixture_student_pool = Inr True
   \<and> verdict fixture_pisciner = Inr True
   \<and> field fixture_student ''pool_year'' = JUndefined
   \<and> field fixture_student ''pool_month'' = JUndefined
   \<and> to_string (field fixture_student ''login'') = Inr ''jdoe''
   \<and> validateStudentStatus fixture_student = Inr (True, [pool_warning ''jdoe''])
   \<and> truthy (field fixture_pisciner ''pool_year'')
   \<and> validateStudentStatus fixture_pisciner = Inr (True, [])"
  using pool_fields_and_verdict [of fixture_student fixture_student_pool True True]
    pool_fields_and_verdict [of fixture_pisciner]
  by (simp add: validate_fixtures verdict_fixtures student_pool fixture_logins fixture_pools)

text \<open>
  The claim as stated fails: of two payloads that meet the five conditions and differ
  only in \<open>pool_year\<close>, the one without it makes the predicate throw and the one with
  it gets true.
\<close>

theorem pool_fields_change_outcome:
  "field fixture_odd_login ''pool_year'' = JUndefined
   \<and> field fixture_odd_login ''pool_month'' = JUndefined
   \<and> validateStudentStatus fixture_odd_login
       = Inl (TypeError ''Cannot convert object to primitive value'')
   \<and> fixture_odd_login_pool
       = JObj [(''login'', JObj [(''toString'', JNum 1)]), (''email'', JStr ''odd@student.42.fr''),
               (''cursus_users'', JArr [JObj []]), (''campus'', JArr [JObj []]),
               (''pool_year'', JStr ''2023'')]
   \<and> fixture_odd_login
       = JObj [(''login'', JObj [(''toString'', JNum 1)]), (''email'', JStr ''odd@student.42.fr''),
               (''cursus_users'', JArr [JObj []]), (''campus'', JArr [JObj []])]
   \<and> validateStudentStatus fixture_odd_login_pool = Inr (True, [])"
  by (simp add: validate_fixtures fixture_pools)
     (simp add: fixture_odd_login_def fixture_odd_login_pool_def)

section \<open>The sweep: which records it removes\<close>

text \<open>The loop deletes the keys of the visited entries that are too old, and nothing else.\<close>

lemma cleanup_loop_pending:
  "pending (fst (cleanup_loop now M es (s, n))) =
     filter (\<lambda>p. fst p \<notin> fst ` {e \<in> set es. now - timestamp (snd e) > M}) (pending s)"
proof (induction es arbitrary: s n)
  case Nil
  then show ?case by simp
next
  case (Cons e es)
  obtain k v where e: "e = (k, v)" by (cases e)
  show ?case
  proof (cases "now - timestamp v > M")
    case True
    have "{x \<in> set (e # es). now - timestamp (snd x) > M}
            = insert e {x \<in> set es. now - timestamp (snd x) > M}"
      using True e by auto
    then show ?thesis
      using True e Cons.IH [of "map_delete k s" "n + 1"]
      by (simp add: map_delete_def AList.delete_eq) (rule filter_cong, auto)
  next
    case False
    have "{x \<in> set (e # es). now - timestamp (snd x) > M}
            = {x \<in> set es. now - timestamp (snd x) > M}"
      using False e by auto
    then show ?thesis
      using False e Cons.IH [of s n] by simp
  qed
qed

lemma map_of_filter_keys:
  "map_of (filter (\<lambda>p. fst p \<notin> K) xs) k = (if k \<in> K then None else map_of xs k)"
  by (induction xs) auto

lemma cleanup_lookup:
  "map_of (pending (fst (cleanupExpiredVerifications s maxAge now))) k =
     (if k \<in> fst ` {e \<in> set (pending s). now - timestamp (snd e) > or_default maxAge}
      then None else map_of (pending s) k)"
  by (simp add: cleanupExpiredVerifications_def cleanup_loop_pending map_of_filter_keys)

lemma cleanup_removes:
  assumes "(k, v) \<in> set (pending s)" and "now - timestamp v > or_default maxAge"
  shows "map_of (pending (fst (cleanupExpiredVerifications s maxAge now))) k = None"
proof -
  have "k \<in> fst ` {e \<in> set (pending s). now - timestamp (snd e) > or_default maxAge}"
    using assms by force
  then show ?thesis by (simp add: cleanup_lookup)
qed

lemma cleanup_keeps:
  assumes "distinct (map fst (pending s))" and "map_of (pending s) k = Some v"
    and "now - timestamp v \<le> or_default maxAge"
  shows "map_of (pending (fst (cleanupExpiredVerifications s maxAge now))) k = Some v"
proof -
  have "k \<notin> fst ` {e \<in> set (pending s). now - timestamp (snd e) > or_default maxAge}"
  proof
    assume "k \<in> fst ` {e \<in> set (pending s). now - timestamp (snd e) > or_default maxAge}"
    then obtain v' where v': "(k, v') \<in> set (pending s)"
      and old: "now - timestamp v' > or_default maxAge"
      by auto
    from v' assms(1) have "map_of (pending s) k = Some v'" by simp
    with assms(2) have "v' = v" by simp
    with old assms(3) show False by simp
  qed
  then show ?thesis using assms(2) by (simp add: cleanup_lookup)
qed

lemma cleanup_is_filter:
  assumes "distinct (map fst (pending s))"
  shows "pending (fst (cleanupExpiredVerifications s maxAge now)) =
           filter (\<lambda>p. \<not> now - timestamp (snd p) > or_default maxAge) (pending s)"
proof -
  let ?E = "{e \<in> set (pending s). now - timestamp (snd e) > or_default maxAge}"
  have "fst p \<notin> fst ` ?E \<longleftrightarrow> \<not> now - timestamp (snd p) > or_default maxAge"
    if p: "p \<in> set (pending s)" for p
  proof
    assume "fst p \<notin> fst ` ?E"
    then have "p \<notin> ?E" by blast
    with p show "\<not> now - timestamp (snd p) > or_default maxAge" by simp
  next
    assume young: "\<not> now - timestamp (snd p) > or_default maxAge"
    show "fst p \<notin> fst ` ?E"
    proof
      assume "fst p \<in> fst ` ?E"
      then obtain e where e: "e \<in> set (pending s)" "fst e = fst p"
        and old: "now - timestamp (snd e) > or_default maxAge"
        by auto
      from e p assms have "snd e = snd p"
        using eq_key_imp_eq_value [of "pending s" "fst p" "snd e" "snd p"]
        by (metis prod.collapse)
      with old young show False by simp
    qed
  qed
  then show ?thesis
    by (simp add: cleanupExpiredVerifications_def cleanup_loop_pending cong: filter_cong)
qed

text \<open>
  C7. The sweep removes every record whose timestamp is more than \<open>maxAge\<close> before the
  current time, for the \<open>maxAge\<close> the caller gives, and for 10 minutes (600000 ms) when
  the caller gives none. So a record stored at time \<open>T\<close> is still there after a sweep at
  \<open>T + maxAge - eps\<close> and is gone after a sweep at \<open>T + maxAge + eps\<close>, for every
  \<open>eps > 0\<close>.
\<close>

theorem sweep_removes_expired:
  "((k, v) \<in> set (pending s) \<and> now - timestamp v > m
      \<longrightarrow> map_of (pending (fst (cleanupExpiredVerifications s (Some m) now))) k = None)
   \<and> ((k, v) \<in> set (pending s) \<and> now - timestamp v > 10 * 60 * 1000
      \<longrightarrow> map_of (pending (fst (cleanupExpiredVerifications s None now))) k = None)
   \<and> (distinct (map fst (pending s)) \<and> map_of (pending s) k = Some v \<and> 0 < eps
      \<longrightarrow> map_of (pending (fst (cleanupExpiredVerifications s (Some m)
                                  (timestamp v + m - eps)))) k = Some v
        \<and> map_of (pending (fst (cleanupExpiredVerifications s (Some m)
                                  (timestamp v + m + eps)))) k = None
        \<and> map_of (pending (fst (cleanupExpiredVerifications s None
                                  (timestamp v + 600000 - eps)))) k = Some v
        \<and> map_of (pending (fst (cleanupExpiredVerifications s None
                                  (timestamp v + 600000 + eps)))) k = None)"
proof (intro conjI impI)
  assume "(k, v) \<in> set (pending s) \<and> now - timestamp v > m"
  then show "map_of (pending (fst (cleanupExpiredVerifications s (Some m) now))) k = None"
    using cleanup_removes [of k v s "Some m" now] by (simp add: or_default_def)
next
  assume "(k, v) \<in> set (pending s) \<and> now - timestamp v > 10 * 60 * 1000"
  then show "map_of (pending (fst (cleanupExpiredVerifications s None now))) k = None"
    using cleanup_removes [of k v s None now] by (simp add: or_default_def)
next
  assume a: "distinct (map fst (pending s)) \<and> map_of (pending s) k = Some v \<and> 0 < eps"
  then have in_map: "(k, v) \<in> set (pending s)" by (simp add: map_of_SomeD)
  from a show "map_of (pending (fst (cleanupExpiredVerifications s (Some m)
                                  (timestamp v + m - eps)))) k = Some v"
    using cleanup_keeps [of s k v "timestamp v + m - eps" "Some m"]
    by (simp add: or_default_def)
  from a in_map show "map_of (pending (fst (cleanupExpiredVerifications s (Some m)
                                  (timestamp v + m + eps)))) k = None"
    using cleanup_removes [of k v s "Some m" "timestamp v + m + eps"]
    by (simp add: or_default_def)
  from a show "map_of (pending (fst (cleanupExpiredVerifications s None
                                  (timestamp v + 600000 - eps)))) k = Some v"
    using cleanup_keeps [of s k v "timestamp v + 600000 - eps" None]
    by (simp add: or_default_def)
  from a in_map show "map_of (pending (fst (cleanupExpiredVerifications s None
                                  (timestamp v + 600000 + eps)))) k = None"
    using cleanup_removes [of k v s None "timestamp v + 600000 + eps"]
    by (simp add: or_default_def)
qed

theorem sweep_removes_expired_witness:
  "(''c0ffee'', fixture_record) \<in> set (pending (server_with fixture_record))
   \<and> timestamp fixture_record = 1000
   \<and> map_of (pending (fst (cleanupExpiredVerifications (server_with fixture_record)
                              (Some 10) 1011))) ''c0ffee'' = None
   \<and> map_of (pending (fst (cleanupExpiredVerifications (server_with fixture_record)
                              (Some 10) 1009))) ''c0ffee'' = Some fixture_record
   \<and> map_of (pending (fst (cleanupExpiredVerifications (server_with fixture_record)
                              (Some 1000000) 601001))) ''c0ffee'' = Some fixture_record
   \<and> map_of (pending (fst (cleanupExpiredVerifications (server_with fixture_record)
                              None 601001))) ''c0ffee'' = None
   \<and> map_of (pending (fst (cleanupExpiredVerifications (server_with fixture_record)
                              None 600999))) ''c0ffee'' = Some fixture_record"
  using sweep_removes_expired
      [of "''c0ffee''" fixture_record "server_with fixture_record" 10 1011 1]
    sweep_removes_expired
      [of "''c0ffee''" fixture_record "server_with fixture_record" 1000000 601001 1]
    cleanup_keeps [of "server_with fixture_record" "''c0ffee''" fixture_record 601001 "Some 1000000"]
  by (simp add: server_with_def fixture_record_def or_default_def)

text \<open>
  C9. The sweep leaves every record that is not expired as it was: a record whose age is
  at most \<open>maxAge\<close> is still in the registry with the same contents, also when its age is
  exactly \<open>maxAge\<close>; the registry after the sweep is the registry before it without the
  expired records, in the same order.
\<close>

theorem sweep_keeps_unexpired:
  "(distinct (map fst (pending s)) \<and> map_of (pending s) k = Some v
      \<and> now - timestamp v \<le> or_default maxAge
      \<longrightarrow> map_of (pending (fst (cleanupExpiredVerifications s maxAge now))) k = Some v)
   \<and> (distinct (map fst (pending s)) \<and> map_of (pending s) k = Some v
      \<longrightarrow> map_of (pending (fst (cleanupExpiredVerifications s maxAge
                                  (timestamp v + or_default maxAge)))) k = Some v)
   \<and> (distinct (map fst (pending s))
      \<longrightarrow> pending (fst (cleanupExpiredVerifications s maxAge now)) =
            filter (\<lambda>p. now - timestamp (snd p) \<le> or_default maxAge) (pending s))"
proof (intro conjI impI)
  assume "distinct (map fst (pending s)) \<and> map_of (pending s) k = Some v
      \<and> now - timestamp v \<le> or_default maxAge"
  then show "map_of (pending (fst (cleanupExpiredVerifications s maxAge now))) k = Some v"
    using cleanup_keeps [of s k v now maxAge] by simp
next
  assume "distinct (map fst (pending s)) \<and> map_of (pending s) k = Some v"
  then show "map_of (pending (fst (cleanupExpiredVerifications s maxAge
                                  (timestamp v + or_default maxAge)))) k = Some v"
    by (intro cleanup_keeps) simp_all
next
  assume "distinct (map fst (pending s))"
  then show "pending (fst (cleanupExpiredVerifications s maxAge now)) =
            filter (\<lambda>p. now - timestamp (snd p) \<le> or_default maxAge) (pending s)"
    by (simp add: cleanup_is_filter not_less)
qed

theorem sweep_keeps_unexpired_witness:
  "distinct (map fst (pending \<lparr>pending = [(''c0ffee'', fixture_record),
                                           (''decade'', fixture_record\<lparr>timestamp := 1001\<rparr>)],
                                calls = []\<rparr>))
   \<and> map_of (pending (fst (cleanupExpiredVerifications
                \<lparr>pending = [(''c0ffee'', fixture_record),
                            (''decade'', fixture_record\<lparr>timestamp := 1001\<rparr>)],
                 calls = []\<rparr> None 601001))) ''decade''
       = Some (fixture_record\<lparr>timestamp := 1001\<rparr>)
   \<and> pending (fst (cleanupExpiredVerifications
                \<lparr>pending = [(''c0ffee'', fixture_record),
                            (''decade'', fixture_record\<lparr>timestamp := 1001\<rparr>)],
                 calls = []\<rparr> None 601001))
       = [(''decade'', fixture_record\<lparr>timestamp := 1001\<rparr>)]"
  using sweep_keeps_unexpired
      [of "\<lparr>pending = [(''c0ffee'', fixture_record),
                       (''decade'', fixture_record\<lparr>timestamp := 1001\<rparr>)],
            calls = []\<rparr>"
          "''decade''" "fixture_record\<lparr>timestamp := 1001\<rparr>" 601001 None]
  by (simp add: fixture_record_def or_default_def)

section \<open>The handlers: what they do to the registry\<close>

lemma str_Some [simp]: "str (Some x) = x"
  by (simp add: str_def)

lemma str_None [simp]: "str None = []"
  by (simp add: str_def)

lemma lookup_map_delete:
  "map_of (pending (map_delete k s)) k' = (if k' = k then None else map_of (pending s) k')"
  by (simp add: map_delete_def AList.delete_conv')

lemma lookup_map_set:
  "map_of (pending (map_set k v s)) k' = (if k' = k then Some v else map_of (pending s) k')"
  by (simp add: map_set_def AList.update_conv')

lemma calls_map_delete: "calls (map_delete k s) = calls s @ [MapDelete k]"
  by (simp add: map_delete_def)

lemma pending_called [simp]: "pending (called c s) = pending s"
  by (simp add: called_def)

lemma accept_try_pending: "pending (fst (accept_try dc v s)) = pending s"
  by (simp add: accept_try_def split: sum.splits option.splits)

lemma accept_try_pending_pair: "accept_try dc v s = (s', r) \<Longrightarrow> pending s' = pending s"
  using accept_try_pending [of dc v s] by simp

lemma accept_consenting:
  assumes "map_of (pending s) tok = Some v" and "tok \<noteq> []" and "awaiting_consent v"
  shows "accept s (Some tok) dc =
           (map_delete tok (fst (accept_try dc v s)),
            Sent (case snd (accept_try dc v s) of
                    Inr u \<Rightarrow> success_page
                  | Inl e \<Rightarrow> verification_error_page (message e)))"
  using assms
  by (simp add: accept_def awaiting_consent_def get_prop_attached split: prod.splits sum.splits)

lemma verification_error_page_inject:
  "verification_error_page m = verification_error_page m' \<longleftrightarrow> m = m'"
  by (simp add: verification_error_page_def)

lemma exchange_failure_message:
  "exchangeCodeForToken api c = Inl e \<Longrightarrow>
     \<exists>d. message e = ''Failed to exchange code for token: '' @ d"
  by (auto simp: exchangeCodeForToken_def split: sum.splits)

lemma user_info_failure_message:
  "getUserInfo api t = Inl e \<Longrightarrow> \<exists>d. message e = ''Failed to get user info: '' @ d"
  by (auto simp: getUserInfo_def split: sum.splits)

lemma exchange_success:
  "exchangeCodeForToken api c = Inr tr \<Longrightarrow> get_prop tr ''access_token'' = Inr (field tr ''access_token'')"
  by (auto simp: exchangeCodeForToken_def field_def split: sum.splits)

lemma user_info_success:
  "getUserInfo api t = Inr u \<Longrightarrow> get_prop u ''login'' = Inr (field u ''login'')"
  by (auto simp: getUserInfo_def field_def split: sum.splits)

lemma verdict_False:
  "verdict u = Inr False \<Longrightarrow> \<exists>w. validateStudentStatus u = Inr (False, w)"
  by (cases "validateStudentStatus u") (auto simp: verdict_def)

lemma verdict_True:
  "verdict u = Inr True \<Longrightarrow> \<exists>w. validateStudentStatus u = Inr (True, w)"
  by (cases "validateStudentStatus u") (auto simp: verdict_def)

lemma callback_try_exchange_fails:
  "exchangeCodeForToken api c = Inl e \<Longrightarrow> callback_try api dc v c = Inl e"
  by (simp add: callback_try_def)

lemma callback_try_user_info_fails:
  "exchangeCodeForToken api c = Inr tr \<Longrightarrow> getUserInfo api (field tr ''access_token'') = Inl e
   \<Longrightarrow> callback_try api dc v c = Inl e"
  by (simp add: callback_try_def exchange_success)

lemma callback_try_ineligible:
  "exchangeCodeForToken api c = Inr tr \<Longrightarrow> getUserInfo api (field tr ''access_token'') = Inr u
   \<Longrightarrow> verdict u = Inr False
   \<Longrightarrow> callback_try api dc v c = Inl (Error ''User is not a valid 42 student or is staff'')"
  by (auto simp: callback_try_def exchange_success user_info_success dest!: verdict_False)

lemma callback_try_success:
  "callback_try api dc v c = Inr u \<Longrightarrow>
     \<exists>tr. exchangeCodeForToken api c = Inr tr \<and> getUserInfo api (field tr ''access_token'') = Inr u
          \<and> verdict u = Inr True"
  apply (cases "exchangeCodeForToken api c")
   apply (simp add: callback_try_def)
  subgoal for tr
    apply (cases "getUserInfo api (field tr ''access_token'')")
     apply (simp add: callback_try_def exchange_success)
    subgoal for u'
      apply (cases "validateStudentStatus u'")
       apply (simp add: callback_try_def exchange_success user_info_success)
      apply (cases "members_fetch dc (discordUserId v)")
       apply (auto simp add: callback_try_def exchange_success user_info_success verdict_def split: if_splits)
      done
    done
  done

lemma callback_live:
  assumes "map_of (pending s) tok = Some v" and "state q = Some tok" and "tok \<noteq> []"
    and "str (code q) \<noteq> []" and "str (error q) = []"
  shows "callback s q api dc =
           (case callback_try api dc v (str (code q)) of
              Inr data \<Rightarrow> (map_set tok (v\<lparr>userData := data, step := Some ''rules_pending''\<rparr>) s,
                            Sent (rules_page tok))
            | Inl e \<Rightarrow> (map_delete tok s, Sent (verification_error_page (message e))))"
  using assms by (simp add: callback_def split: sum.splits)

lemma callback_never_grants:
  "filter is_grant (calls (fst (callback s q api dc))) = filter is_grant (calls s)"
  by (simp add: callback_def map_set_def map_delete_def split: option.splits sum.splits)


subsection \<open>The fixtures, evaluated\<close>

lemma exchange_answering:
  "exchangeCodeForToken (intra_answering u) c = Inr (JObj [(''access_token'', JStr ''t0'')])"
  by (simp add: exchangeCodeForToken_def intra_answering_def)

lemma exchange_down:
  "exchangeCodeForToken intra_down c =
     Inl (Error ''Failed to exchange code for token: Request failed with status code 401'')"
  by (simp add: exchangeCodeForToken_def intra_down_def)

lemma user_info_answering:
  "truthy u \<Longrightarrow> getUserInfo (intra_answering u) t = Inr u"
  by (simp add: getUserInfo_def intra_answering_def get_prop_truthy)



lemma fixtures_truthy: "truthy fixture_student" "truthy fixture_staff" "truthy fixture_pisciner"
  by (simp_all add: fixture_student_def fixture_staff_def fixture_pisciner_def)

lemma fixture_consenting_awaits: "awaiting_consent fixture_consenting"
  by (simp add: awaiting_consent_def fixture_consenting_def fixture_student_def fixture_record_def)


lemma lookup_server_with [simp]: "map_of (pending (server_with v)) ''c0ffee'' = Some v"
  by (simp add: server_with_def)

lemma decline_consenting:
  assumes "map_of (pending s) tok = Some v" and "tok \<noteq> []" and "awaiting_consent v"
  shows "decline s (Some tok) = (map_delete tok s, Sent decline_page)"
  using assms by (simp add: decline_def awaiting_consent_def get_prop_attached)

lemma ready_up: "ready_to_grant discord_up u"
  by (simp add: ready_to_grant_def discord_up_def)

lemma ready_denying: "ready_to_grant discord_denying u"
  by (simp add: ready_to_grant_def discord_up_def discord_denying_def)

lemma roles_add_fixtures:
  "roles_add discord_up u = None" "roles_add discord_denying u = Some (Error ''Missing Permissions'')"
  by (simp_all add: discord_up_def discord_denying_def)

lemma fixture_user_id: "discordUserId fixture_consenting = ''1001''" "discordUserId fixture_record = ''1001''"
  by (simp_all add: fixture_consenting_def fixture_record_def)

lemma map_delete_server_with:
  "map_delete ''c0ffee'' (server_with v) = \<lparr>pending = [], calls = [MapDelete ''c0ffee'']\<rparr>"
  by (simp add: map_delete_def server_with_def)

lemma accept_try_granting:
  "ready_to_grant dc (discordUserId v) \<Longrightarrow>
     accept_try dc v s =
       (case roles_add dc (discordUserId v) of
          Some roleError \<Rightarrow>
            (called (RolesAdd (discordUserId v)) s,
             Inl (Error (''Failed to assign role: '' @ message roleError)))
        | None \<Rightarrow>
            (called (MemberSend (discordUserId v) SuccessEmbed)
               (called (RolesAdd (discordUserId v)) s),
             Inr ()))"
  by (simp add: accept_try_def ready_to_grant_def)

lemma accept_fixture_up:
  "accept (server_with fixture_consenting) (Some ''c0ffee'') discord_up
     = (\<lparr>pending = [],
         calls = [RolesAdd ''1001'', MemberSend ''1001'' SuccessEmbed, MapDelete ''c0ffee'']\<rparr>,
        Sent success_page)"
  by (simp add: accept_consenting [of _ _ fixture_consenting] fixture_consenting_awaits
      accept_try_granting ready_up roles_add_fixtures fixture_user_id)
     (simp add: map_delete_def called_def server_with_def)

lemma accept_fixture_denying:
  "accept (server_with fixture_consenting) (Some ''c0ffee'') discord_denying
     = (\<lparr>pending = [], calls = [RolesAdd ''1001'', MapDelete ''c0ffee'']\<rparr>,
        Sent (verification_error_page ''Failed to assign role: Missing Permissions''))"
  by (simp add: accept_consenting [of _ _ fixture_consenting] fixture_consenting_awaits
      accept_try_granting ready_denying roles_add_fixtures fixture_user_id)
     (simp add: map_delete_def called_def server_with_def)

lemma decline_fixture:
  "decline (server_with fixture_consenting) (Some ''c0ffee'')
     = (\<lparr>pending = [], calls = [MapDelete ''c0ffee'']\<rparr>, Sent decline_page)"
  by (simp add: decline_consenting [of _ _ fixture_consenting] fixture_consenting_awaits
      map_delete_server_with)

lemma staff_flag: "truthy (field fixture_staff ''staff?'')"
  by (simp add: fixture_staff_def field_def)

section \<open>Requests with a token that is no longer in the registry\<close>

lemma callback_is_resume:
  assumes "map_of (pending s) tok = Some v" and "state q = Some tok" and "tok \<noteq> []"
    and "str (code q) \<noteq> []" and "str (error q) = []"
  shows "callback s q api dc = callback_resume s tok v (str (code q)) api dc"
  using assms by (simp add: callback_live callback_resume_def)










section \<open>The two failure pages of the callback\<close>

text \<open>
  C2, as the code has it. A callback without a code or without a state gets the page
  about the missing parameter; a callback whose state is not in the registry gets the
  "invalid or expired" page. Both leave the state as it was, and the two pages have the
  same title and the same heading; their paragraphs differ, so the requester can tell the
  two causes apart.
\<close>

theorem malformed_and_unknown_state_pages:
  assumes "str (error q) = []" and "str (code q) = [] \<or> str (state q) = []"
    and "str (error q') = []" and "str (code q') \<noteq> []" and "str (state q') \<noteq> []"
    and "map_of (pending s) (str (state q')) = None"
  shows "callback s q api dc = (s, Sent missing_parameters_page)
       \<and> callback s q' api dc = (s, Sent invalid_state_page)
       \<and> title missing_parameters_page = title invalid_state_page
       \<and> hd (body missing_parameters_page) = hd (body invalid_state_page)
       \<and> missing_parameters_page \<noteq> invalid_state_page"
  using assms
  by (auto simp add: callback_def missing_parameters_page_def invalid_state_page_def)


theorem malformed_and_unknown_state_pages_witness:
  "callback \<lparr>pending = [], calls = []\<rparr> \<lparr>code = None, state = Some ''c0ffee'', error = None\<rparr>
      (intra_answering fixture_student) discord_up
     = (\<lparr>pending = [], calls = []\<rparr>, Sent missing_parameters_page)
   \<and> callback \<lparr>pending = [], calls = []\<rparr> callback_query
      (intra_answering fixture_student) discord_up
     = (\<lparr>pending = [], calls = []\<rparr>, Sent invalid_state_page)
   \<and> missing_parameters_page \<noteq> invalid_state_page"
  using malformed_and_unknown_state_pages
      [of "\<lparr>code = None, state = Some ''c0ffee'', error = None\<rparr>" callback_query
          "\<lparr>pending = [], calls = []\<rparr>" "intra_answering fixture_student" discord_up]
  by (simp add: callback_query_def)

text \<open>
  The claim as stated fails: on the empty registry the response to a callback without a
  code is not the response to a callback with an unknown state.
\<close>

theorem malformed_and_unknown_state_differ:
  "snd (callback \<lparr>pending = [], calls = []\<rparr>
          \<lparr>code = None, state = Some ''c0ffee'', error = None\<rparr>
          (intra_answering fixture_student) discord_up)
   \<noteq> snd (callback \<lparr>pending = [], calls = []\<rparr> callback_query
          (intra_answering fixture_student) discord_up)"
  by (simp add: callback_def callback_query_def missing_parameters_page_def invalid_state_page_def)

section \<open>Accepting the rules\<close>

text \<open>
  C5. For a token whose record waits for consent, the record is gone when the accept
  handler has finished, whatever the Discord client answers, and the deletion is the
  last call made. When the grant succeeds, the calls are the grant, then the success
  message, then the deletion, and the success page is sent. When the grant fails, the
  calls are the grant and the deletion, and the page carries the message
  "Failed to assign role: ...", which no page of the identity callback carries: not the
  "invalid or expired" page, not the missing-parameter page, and not the page shown when
  the code exchange fails, the claims fetch fails or the user is not eligible.
\<close>

theorem accept_always_deletes:
  assumes "map_of (pending s) tok = Some v" and "tok \<noteq> []" and "awaiting_consent v"
  shows "map_of (pending (fst (accept s (Some tok) dc))) tok = None
       \<and> (\<exists>cs. calls (fst (accept s (Some tok) dc)) = calls s @ cs @ [MapDelete tok])
       \<and> (\<exists>p. snd (accept s (Some tok) dc) = Sent p)
       \<and> (ready_to_grant dc (discordUserId v) \<and> roles_add dc (discordUserId v) = None
            \<longrightarrow> snd (accept s (Some tok) dc) = Sent success_page
              \<and> calls (fst (accept s (Some tok) dc)) =
                  calls s @ [RolesAdd (discordUserId v), MemberSend (discordUserId v) SuccessEmbed,
                             MapDelete tok])
       \<and> (\<forall>roleError. ready_to_grant dc (discordUserId v) \<and> roles_add dc (discordUserId v) = Some roleError
            \<longrightarrow> snd (accept s (Some tok) dc) =
                  Sent (verification_error_page (''Failed to assign role: '' @ message roleError))
              \<and> calls (fst (accept s (Some tok) dc)) =
                  calls s @ [RolesAdd (discordUserId v), MapDelete tok]
              \<and> verification_error_page (''Failed to assign role: '' @ message roleError)
                  \<notin> {invalid_state_page, missing_parameters_page,
                     verification_error_page ''User is not a valid 42 student or is staff''}
              \<and> (\<forall>api c e. exchangeCodeForToken api c = Inl e \<longrightarrow>
                    verification_error_page (message e)
                      \<noteq> verification_error_page (''Failed to assign role: '' @ message roleError))
              \<and> (\<forall>api t e. getUserInfo api t = Inl e \<longrightarrow>
                    verification_error_page (message e)
                      \<noteq> verification_error_page (''Failed to assign role: '' @ message roleError)))"
proof (intro conjI allI impI)
  note acc = accept_consenting [OF assms, of dc]
  show "map_of (pending (fst (accept s (Some tok) dc))) tok = None"
    by (simp add: acc lookup_map_delete)
  show "\<exists>cs. calls (fst (accept s (Some tok) dc)) = calls s @ cs @ [MapDelete tok]"
    by (simp add: acc calls_map_delete accept_try_def called_def split: sum.splits option.splits)
  show "\<exists>p. snd (accept s (Some tok) dc) = Sent p"
    by (simp add: acc)
  {
    assume "ready_to_grant dc (discordUserId v) \<and> roles_add dc (discordUserId v) = None"
    then show "snd (accept s (Some tok) dc) = Sent success_page"
      and "calls (fst (accept s (Some tok) dc)) =
             calls s @ [RolesAdd (discordUserId v), MemberSend (discordUserId v) SuccessEmbed,
                        MapDelete tok]"
      by (simp_all add: acc calls_map_delete accept_try_def called_def ready_to_grant_def)
  }
  {
    fix roleError
    assume "ready_to_grant dc (discordUserId v) \<and> roles_add dc (discordUserId v) = Some roleError"
    then show "snd (accept s (Some tok) dc) =
                  Sent (verification_error_page (''Failed to assign role: '' @ message roleError))"
      and "calls (fst (accept s (Some tok) dc)) =
                  calls s @ [RolesAdd (discordUserId v), MapDelete tok]"
      by (simp_all add: acc calls_map_delete accept_try_def called_def ready_to_grant_def)
    show "verification_error_page (''Failed to assign role: '' @ message roleError)
            \<notin> {invalid_state_page, missing_parameters_page,
               verification_error_page ''User is not a valid 42 student or is staff''}"
      by (simp add: verification_error_page_def invalid_state_page_def missing_parameters_page_def)
    {
      fix api c e
      assume "exchangeCodeForToken api c = Inl e"
      then show "verification_error_page (message e)
                   \<noteq> verification_error_page (''Failed to assign role: '' @ message roleError)"
        using exchange_failure_message [of api c e]
        by (auto simp: verification_error_page_inject)
    }
    {
      fix api t e
      assume "getUserInfo api t = Inl e"
      then show "verification_error_page (message e)
                   \<noteq> verification_error_page (''Failed to assign role: '' @ message roleError)"
        using user_info_failure_message [of api t e]
        by (auto simp: verification_error_page_inject)
    }
  }
qed


theorem accept_always_deletes_witness:
  "map_of (pending (server_with fixture_consenting)) ''c0ffee'' = Some fixture_consenting
   \<and> awaiting_consent fixture_consenting
   \<and> ready_to_grant discord_up (discordUserId fixture_consenting)
   \<and> accept (server_with fixture_consenting) (Some ''c0ffee'') discord_up
      = (\<lparr>pending = [],
          calls = [RolesAdd ''1001'', MemberSend ''1001'' SuccessEmbed, MapDelete ''c0ffee'']\<rparr>,
         Sent success_page)
   \<and> roles_add discord_denying (discordUserId fixture_consenting)
      = Some (Error ''Missing Permissions'')
   \<and> snd (accept (server_with fixture_consenting) (Some ''c0ffee'') discord_denying)
      = Sent (verification_error_page ''Failed to assign role: Missing Permissions'')
   \<and> calls (fst (accept (server_with fixture_consenting) (Some ''c0ffee'') discord_denying))
      = [RolesAdd ''1001'', MapDelete ''c0ffee'']
   \<and> map_of (pending (fst (accept (server_with fixture_consenting) (Some ''c0ffee'')
                               discord_denying))) ''c0ffee'' = None"
  using accept_always_deletes
      [of "server_with fixture_consenting" "''c0ffee''" fixture_consenting discord_up]
    accept_always_deletes
      [of "server_with fixture_consenting" "''c0ffee''" fixture_consenting discord_denying]
  by (simp add: fixture_consenting_awaits ready_up roles_add_fixtures accept_fixture_up
      accept_fixture_denying)

section \<open>A callback that fails\<close>

text \<open>
  C6. For a callback with a code, no error parameter and the token of a live record: when
  the code exchange fails, or the claims fetch fails, or the eligibility predicate says
  no (as it does when the staff flag is set), the record is deleted, the deletion is the
  only call made, the page with the title "Verification Failed" and the message of the
  failure is sent, and no grant is made. The callback handler makes no grant on any
  request.
\<close>

theorem failed_callback_deletes_without_grant:
  assumes "map_of (pending s) tok = Some v" and "state q = Some tok" and "tok \<noteq> []"
    and "str (code q) \<noteq> []" and "str (error q) = []"
    and "exchangeCodeForToken api (str (code q)) = Inl e
       \<or> (\<exists>tr. exchangeCodeForToken api (str (code q)) = Inr tr
               \<and> getUserInfo api (field tr ''access_token'') = Inl e)
       \<or> (\<exists>tr u. exchangeCodeForToken api (str (code q)) = Inr tr
               \<and> getUserInfo api (field tr ''access_token'') = Inr u
               \<and> (verdict u = Inr False \<or> truthy (field u ''staff?''))
               \<and> e = Error ''User is not a valid 42 student or is staff'')"
  shows "callback s q api dc = (map_delete tok s, Sent (verification_error_page (message e)))
       \<and> map_of (pending (fst (callback s q api dc))) tok = None
       \<and> calls (fst (callback s q api dc)) = calls s @ [MapDelete tok]
       \<and> filter is_grant (calls (fst (callback s q api dc))) = filter is_grant (calls s)
       \<and> title (verification_error_page (message e)) = ''Verification Failed''"
proof -
  have staff: "verdict u = Inr False" if "truthy (field u ''staff?'')" for u
  proof (cases "truthy u")
    case True
    then have "get_prop u k = Inr (field u k)" for k
      by (cases u) (simp_all add: field_def)
    with that True show ?thesis
      by (simp add: verdict_def validateStudentStatus_def)
  next
    case False
    then show ?thesis by (simp add: verdict_def validateStudentStatus_def)
  qed
  have "callback_try api dc v (str (code q)) = Inl e"
    using assms(6) staff
    by (auto intro: callback_try_exchange_fails callback_try_user_info_fails callback_try_ineligible)
  then have "callback s q api dc = (map_delete tok s, Sent (verification_error_page (message e)))"
    by (simp add: callback_live [OF assms(1-5)])
  then show ?thesis
    by (simp add: lookup_map_delete calls_map_delete verification_error_page_def)
qed


theorem failed_callback_deletes_without_grant_witness:
  "map_of (pending (server_with fixture_record)) ''c0ffee'' = Some fixture_record
   \<and> state callback_query = Some ''c0ffee'' \<and> str (code callback_query) = ''abc''
   \<and> truthy (field fixture_staff ''staff?'')
   \<and> callback (server_with fixture_record) callback_query (intra_answering fixture_staff) discord_up
      = (\<lparr>pending = [], calls = [MapDelete ''c0ffee'']\<rparr>,
         Sent (verification_error_page ''User is not a valid 42 student or is staff''))
   \<and> callback (server_with fixture_record) callback_query intra_down discord_up
      = (\<lparr>pending = [], calls = [MapDelete ''c0ffee'']\<rparr>,
         Sent (verification_error_page
                 ''Failed to exchange code for token: Request failed with status code 401''))"
  using failed_callback_deletes_without_grant
      [of "server_with fixture_record" "''c0ffee''" fixture_record callback_query
          "intra_answering fixture_staff" "Error ''User is not a valid 42 student or is staff''"
          discord_up]
    failed_callback_deletes_without_grant
      [of "server_with fixture_record" "''c0ffee''" fixture_record callback_query
          intra_down
          "Error ''Failed to exchange code for token: Request failed with status code 401''"
          discord_up]
  by (simp add: callback_query_def exchange_answering exchange_down user_info_answering
      fixtures_truthy staff_flag map_delete_server_with)

section \<open>Declining the rules\<close>

text \<open>
  C8. For a token whose record waits for consent, the decline handler deletes the record
  and sends the decline confirmation; the deletion is the only call it makes. When the
  record is absent or is not in the consent step, the handler changes nothing. The decline
  handler makes no grant on any request.
\<close>

theorem decline_deletes_without_grant:
  "(map_of (pending s) tok = Some v \<and> tok \<noteq> [] \<and> awaiting_consent v
      \<longrightarrow> decline s (Some tok) = (map_delete tok s, Sent decline_page)
        \<and> map_of (pending (fst (decline s (Some tok)))) tok = None
        \<and> calls (fst (decline s (Some tok))) = calls s @ [MapDelete tok]
        \<and> title decline_page = ''Verification Declined'')
   \<and> (map_of (pending s) (str st) = None
        \<or> (\<exists>w. map_of (pending s) (str st) = Some w \<and> step w \<noteq> Some ''rules_pending'')
      \<longrightarrow> decline s st = (s, Sent (if str st = [] then missing_state_page else invalid_rules_state_page)))
   \<and> filter is_grant (calls (fst (decline s st))) = filter is_grant (calls s)"
proof (intro conjI impI)
  assume a: "map_of (pending s) tok = Some v \<and> tok \<noteq> [] \<and> awaiting_consent v"
  then have d: "decline s (Some tok) = (map_delete tok s, Sent decline_page)"
    by (simp add: decline_consenting)
  then show "decline s (Some tok) = (map_delete tok s, Sent decline_page)" .
  from d show "map_of (pending (fst (decline s (Some tok)))) tok = None"
    by (simp add: lookup_map_delete)
  from d show "calls (fst (decline s (Some tok))) = calls s @ [MapDelete tok]"
    by (simp add: calls_map_delete)
  show "title decline_page = ''Verification Declined''"
    by (simp add: decline_page_def)
next
  assume "map_of (pending s) (str st) = None
        \<or> (\<exists>w. map_of (pending s) (str st) = Some w \<and> step w \<noteq> Some ''rules_pending'')"
  then show "decline s st = (s, Sent (if str st = [] then missing_state_page else invalid_rules_state_page))"
    by (auto simp: decline_def)
next
  show "filter is_grant (calls (fst (decline s st))) = filter is_grant (calls s)"
    by (simp add: decline_def map_delete_def split: option.splits sum.splits)
qed


theorem decline_deletes_without_grant_witness:
  "map_of (pending (server_with fixture_consenting)) ''c0ffee'' = Some fixture_consenting
   \<and> awaiting_consent fixture_consenting
   \<and> decline (server_with fixture_consenting) (Some ''c0ffee'')
      = (\<lparr>pending = [], calls = [MapDelete ''c0ffee'']\<rparr>, Sent decline_page)
   \<and> step fixture_record \<noteq> Some ''rules_pending''
   \<and> decline (server_with fixture_record) (Some ''c0ffee'')
      = (server_with fixture_record, Sent invalid_rules_state_page)"
  using decline_deletes_without_grant
      [of "server_with fixture_consenting" "''c0ffee''" fixture_consenting "Some ''c0ffee''"]
    decline_deletes_without_grant
      [of "server_with fixture_record" "''c0ffee''" fixture_record "Some ''c0ffee''"]
  by (simp add: fixture_consenting_awaits decline_fixture fixture_record_def)

section \<open>Runs: the phases of a record\<close>

text \<open>What a handler can do to the entry of one key: delete it, leave it, or store the consent record.\<close>

lemma accept_lookup:
  "map_of (pending (fst (accept s st dc))) k = None
   \<or> map_of (pending (fst (accept s st dc))) k = map_of (pending s) k"
  by (auto simp: accept_def lookup_map_delete split: option.splits sum.splits prod.splits
      dest: accept_try_pending_pair)

lemma decline_lookup:
  "map_of (pending (fst (decline s st))) k = None
   \<or> map_of (pending (fst (decline s st))) k = map_of (pending s) k"
  by (auto simp: decline_def lookup_map_delete split: option.splits sum.splits)

lemma sweep_lookup:
  "map_of (pending (fst (cleanupExpiredVerifications s maxAge now))) k = None
   \<or> map_of (pending (fst (cleanupExpiredVerifications s maxAge now))) k = map_of (pending s) k"
  by (simp add: cleanup_lookup)

lemma callback_lookup:
  "map_of (pending (fst (callback s q api dc))) k = None
   \<or> map_of (pending (fst (callback s q api dc))) k = map_of (pending s) k
   \<or> (\<exists>v u. map_of (pending s) k = Some v \<and> state q = Some k \<and> str (error q) = []
          \<and> callback_try api dc v (str (code q)) = Inr u
          \<and> map_of (pending (fst (callback s q api dc))) k
              = Some (v\<lparr>userData := u, step := Some ''rules_pending''\<rparr>))"
proof (cases "str (error q) \<noteq> [] \<or> str (code q) = [] \<or> str (state q) = []")
  case True
  then show ?thesis by (auto simp: callback_def)
next
  case False
  then obtain t where t: "state q = Some t" "t \<noteq> []"
    by (cases "state q") auto
  show ?thesis
  proof (cases "map_of (pending s) t")
    case None
    with False t show ?thesis by (simp add: callback_def)
  next
    case (Some v)
    show ?thesis
    proof (cases "callback_try api dc v (str (code q))")
      case (Inl e)
      with False t Some show ?thesis
        by (simp add: callback_def lookup_map_delete)
    next
      case (Inr u)
      with False t Some show ?thesis
        by (simp add: callback_def lookup_map_set)
    qed
  qed
qed

lemma join_lookup:
  "\<not> creates (Join m dc) k \<Longrightarrow>
     map_of (pending (fst (guildMemberAdd s m dc))) k = map_of (pending s) k"
  by (auto simp: guildMemberAdd_def Let_def lookup_map_set split: option.splits)

lemma join_lookup_created:
  "creates (Join m dc) k \<Longrightarrow>
     \<exists>v. map_of (pending (fst (guildMemberAdd s m dc))) k = Some v \<and> step v = None"
  by (auto simp: guildMemberAdd_def Let_def lookup_map_set split: option.splits)















section \<open>Runs: what every reachable state satisfies\<close>

text \<open>
  The hypotheses of the theorems above hold in every state the server reaches from the
  empty registry: the map has one entry per key, no key is empty, and a record in the
  consent step carries claims.
\<close>

lemma length_generateState: "length (generateState r) = 64"
  by (simp add: generateState_def hex_byte_def length_concat comp_def sum_list_triv)

lemma generateState_nonempty: "generateState r \<noteq> []"
  using length_generateState [of r] by auto

lemma eligible_attached: "eligible u \<Longrightarrow> u \<noteq> JUndefined \<and> u \<noteq> JNull"
  by (auto simp: eligible_def)

lemma distinct_handle:
  "distinct (map fst (pending s)) \<Longrightarrow> distinct (map fst (pending (handle s e)))"
proof (cases e)
  case (Join m dc)
  assume "distinct (map fst (pending s))"
  with Join show ?thesis
    by (simp add: guildMemberAdd_def Let_def map_set_def distinct_update split: option.splits)
next
  case (Callback q api dc)
  assume "distinct (map fst (pending s))"
  with Callback show ?thesis
    by (simp add: callback_def map_set_def map_delete_def distinct_update distinct_delete
        split: option.splits sum.splits)
next
  case (Accept st dc)
  assume "distinct (map fst (pending s))"
  with Accept show ?thesis
    by (auto simp: accept_def map_delete_def distinct_delete
        split: option.splits sum.splits prod.splits dest: accept_try_pending_pair)
next
  case (Decline st)
  assume "distinct (map fst (pending s))"
  with Decline show ?thesis
    by (simp add: decline_def map_delete_def distinct_delete split: option.splits sum.splits)
next
  case (Sweep now)
  assume "distinct (map fst (pending s))"
  with Sweep show ?thesis
    by (simp add: cleanupExpiredVerifications_def cleanup_loop_pending distinct_map_filter)
qed

lemma handle_lookup:
  assumes "map_of (pending (handle s e)) k = Some v"
  shows "map_of (pending s) k = Some v
       \<or> (k \<noteq> [] \<and> step v = None)
       \<or> (\<exists>v0 u. map_of (pending s) k = Some v0 \<and> eligible u
             \<and> v = v0\<lparr>userData := u, step := Some ''rules_pending''\<rparr>)"
proof (cases e)
  case (Join m dc)
  show ?thesis
  proof (cases "creates e k")
    case True
    with Join assms join_lookup_created [of m dc k s] generateState_nonempty show ?thesis
      by auto
  next
    case False
    with Join assms show ?thesis by (simp add: join_lookup)
  qed
next
  case (Callback q api dc)
  with assms callback_lookup [of s q api dc k] show ?thesis
    by (auto dest!: callback_try_success verdict_returned)
next
  case (Accept st dc)
  with assms accept_lookup [of s st dc k] show ?thesis by auto
next
  case (Decline st)
  with assms decline_lookup [of s st k] show ?thesis by auto
next
  case (Sweep now)
  with assms sweep_lookup [of s None now k] show ?thesis by auto
qed

lemma well_formed_handle:
  assumes "well_formed s"
  shows "well_formed (handle s e)"
proof -
  from assms have d: "distinct (map fst (pending s))" by (simp add: well_formed_def)
  then have d': "distinct (map fst (pending (handle s e)))" by (rule distinct_handle)
  have "fst p \<noteq> [] \<and> (step (snd p) = Some ''rules_pending'' \<longrightarrow> awaiting_consent (snd p))"
    if "p \<in> set (pending (handle s e))" for p
  proof -
    obtain k v where p: "p = (k, v)" by (cases p)
    with that d' have m: "map_of (pending (handle s e)) k = Some v" by simp
    from handle_lookup [OF m] consider "map_of (pending s) k = Some v" | "k \<noteq> []" "step v = None"
      | v0 u where "map_of (pending s) k = Some v0" "eligible u"
          "v = v0\<lparr>userData := u, step := Some ''rules_pending''\<rparr>"
      by (elim disjE exE conjE) auto
    then show ?thesis
    proof cases
      case 1
      then have "(k, v) \<in> set (pending s)" by (rule map_of_SomeD)
      with assms p show ?thesis by (auto simp: well_formed_def)
    next
      case 2
      with p show ?thesis by simp
    next
      case 3
      then have "(k, v0) \<in> set (pending s)" by (simp add: map_of_SomeD)
      with assms have "k \<noteq> []" by (auto simp: well_formed_def)
      with 3 p show ?thesis
        by (auto simp: awaiting_consent_def dest: eligible_attached)
    qed
  qed
  with d' show ?thesis by (simp add: well_formed_def)
qed

lemma well_formed_run: "well_formed s \<Longrightarrow> well_formed (run s es)"
  by (induction es arbitrary: s) (simp_all add: well_formed_handle)

lemma well_formed_start: "well_formed \<lparr>pending = [], calls = []\<rparr>"
  by (simp add: well_formed_def)

lemma reachable_consent_record:
  assumes "s = run \<lparr>pending = [], calls = []\<rparr> es" and "map_of (pending s) tok = Some v"
    and "step v = Some ''rules_pending''"
  shows "distinct (map fst (pending s)) \<and> tok \<noteq> [] \<and> awaiting_consent v"
proof -
  have w: "well_formed s"
    using assms(1) well_formed_run [OF well_formed_start] by simp
  from assms(2) have "(tok, v) \<in> set (pending s)" by (rule map_of_SomeD)
  with w assms(3) show ?thesis by (auto simp: well_formed_def)
qed

end
